theory Spec2Isabelle
  imports Main "HOL-Library.Mapping"
begin

section \<open>Name binding (lib/Sema/NameBinding.cpp)\<close>

subsection \<open>Data model\<close>

text \<open>
  An \<open>Identifier\<close> is its text; \<open>Name.empty()\<close> is the empty string. A source location
  \<open>SMLoc\<close> is an opaque position. A pointer to a declaration (\<open>Decl*\<close>, \<open>ValueDecl*\<close>,
  \<open>ImportDecl*\<close>) is an address; a pointer that may be null is an \<open>option\<close>.
\<close>

type_synonym Identifier = string
type_synonym SMLoc = nat
type_synonym DeclPtr = nat
type_synonym MemoryBuffer = string

text \<open>
  Modelled from the spec: the expression node kinds (swift/AST/Expr.h is not part of the
  sources at hand). The spec names a closed variant with the Unresolved Reference
  (identifier and location), the Resolved Reference (the declaration it points to) and
  every other node; another node has a payload that the pass never reads and an ordered
  row of children, each of which may be absent (a hole).
\<close>

datatype Expr =
    UnresolvedDeclRefExpr Identifier SMLoc
  | DeclRefExpr DeclPtr SMLoc
  | OtherExpr nat "Expr option list"

datatype WalkOrder = Walk_PreOrder | Walk_PostOrder

text \<open>
  Modelled from the spec: the declaration kinds (swift/AST/Decl.h is not part of the
  sources at hand). A Value Declaration has an identifier, possibly empty, and an optional
  initializer; an Import Declaration names a module and carries the location of the
  import statement; \<open>dyn_cast\<close> is a case distinction on the constructor.
\<close>

datatype Decl =
    ValueDecl Identifier "Expr option"
  | ImportDecl Identifier SMLoc
  | OtherDecl

text \<open>
  \<open>TUD->Decls\<close> is an array of pointers; each element of \<open>Decls\<close> is a pointer together
  with the object it points to.
\<close>

record TranslationUnitDecl =
  Decls :: "(DeclPtr \<times> Decl) list"

text \<open>
  The parts of the compilation context the pass touches: the source manager's buffers and
  printed messages (location, text, kind), and the error flag of \<open>setHadError\<close>.
\<close>

record ASTContext =
  Buffers :: "(MemoryBuffer \<times> SMLoc) list"
  Messages :: "(SMLoc \<times> string \<times> string) list"
  HadError :: bool

text \<open>
  The two collaborators of the import loader are parameters of the model:
  \<open>llvm::MemoryBuffer::getFile\<close> (the message of the error code on the left, the buffer on
  the right) and \<open>Parser(BufferID, Context).parseTranslationUnit()\<close>, which may change the
  context and may return no unit.
\<close>

record Env =
  getFile :: "string \<Rightarrow> string + MemoryBuffer"
  parseTranslationUnit :: "nat \<Rightarrow> ASTContext \<Rightarrow> TranslationUnitDecl option \<times> ASTContext"

record ReferencedModule =
  TUD :: TranslationUnitDecl
  TopLevelValues_RM :: "(Identifier, DeclPtr) mapping"

text \<open>
  \<open>Imports\<close> holds each module by value: a \<open>ReferencedModule\<close> is created by one import
  and reached through that entry alone. \<open>LoadedModules\<close> keeps the same pointers for the
  destructor only; it is the row of units the modules were created for.
\<close>

record NameBinder =
  LoadedModules :: "TranslationUnitDecl list"
  TopLevelValues :: "(Identifier, DeclPtr) mapping"
  Imports :: "(DeclPtr \<times> ReferencedModule) list"
  Context :: ASTContext

subsection \<open>ReferencedModule\<close>

definition ReferencedModule_new :: "TranslationUnitDecl \<Rightarrow> ReferencedModule" where
  "ReferencedModule_new tud = \<lparr>TUD = tud, TopLevelValues_RM = Mapping.empty\<rparr>"

text \<open>The loop of \<open>lookupValue\<close> over \<open>TUD->Decls\<close>.\<close>

fun lookupValue_build ::
  "(DeclPtr \<times> Decl) list \<Rightarrow> (Identifier, DeclPtr) mapping \<Rightarrow> (Identifier, DeclPtr) mapping" where
  "lookupValue_build [] M = M"
| "lookupValue_build ((VD, D) # Ds) M =
     lookupValue_build Ds
       (case D of
          ValueDecl Name Init \<Rightarrow> if Name \<noteq> [] then Mapping.update Name VD M else M
        | _ \<Rightarrow> M)"

definition lookupValue ::
  "ReferencedModule \<Rightarrow> DeclPtr \<Rightarrow> Identifier \<Rightarrow> DeclPtr option \<times> ReferencedModule" where
  "lookupValue RM ID Name =
     (let RM' = (if Mapping.is_empty (TopLevelValues_RM RM)
                 then RM\<lparr>TopLevelValues_RM :=
                          lookupValue_build (Decls (TUD RM)) (TopLevelValues_RM RM)\<rparr>
                 else RM)
      in (Mapping.lookup (TopLevelValues_RM RM') Name, RM'))"

subsection \<open>NameBinder\<close>

definition NameBinder_new :: "ASTContext \<Rightarrow> NameBinder" where
  "NameBinder_new C =
     \<lparr>LoadedModules = [], TopLevelValues = Mapping.empty, Imports = [], Context = C\<rparr>"

text \<open>\<open>addNamedTopLevelDecl(VD)\<close>, given the pointer and the name it points to.\<close>

definition addNamedTopLevelDecl :: "NameBinder \<Rightarrow> DeclPtr \<Rightarrow> Identifier \<Rightarrow> NameBinder" where
  "addNamedTopLevelDecl B VD Name =
     B\<lparr>TopLevelValues := Mapping.update Name VD (TopLevelValues B)\<rparr>"

definition error :: "NameBinder \<Rightarrow> SMLoc \<Rightarrow> string \<Rightarrow> NameBinder" where
  "error B Loc Message =
     B\<lparr>Context := (Context B)\<lparr>HadError := True,
                               Messages := Messages (Context B) @ [(Loc, Message, ''error'')]\<rparr>\<rparr>"

definition getReferencedModule ::
  "Env \<Rightarrow> NameBinder \<Rightarrow> SMLoc \<Rightarrow> Identifier \<Rightarrow> ReferencedModule option \<times> NameBinder" where
  "getReferencedModule W B Loc ModuleID =
     (let InputFilename = ModuleID @ ''.swift'' in
      case getFile W InputFilename of
        Inl Err \<Rightarrow>
          (None, error B Loc (''opening import file '' @ [CHR 0x27] @ InputFilename
                              @ [CHR 0x27] @ '': '' @ Err))
      | Inr InputFile \<Rightarrow>
          (let C = Context B;
               BufferID = length (Buffers C);
               C1 = C\<lparr>Buffers := Buffers C @ [(InputFile, Loc)]\<rparr>
           in case parseTranslationUnit W BufferID C1 of
                (None, C2) \<Rightarrow> (None, B\<lparr>Context := C2\<rparr>)
              | (Some tud, C2) \<Rightarrow>
                  (Some (ReferencedModule_new tud),
                   B\<lparr>Context := C2, LoadedModules := LoadedModules B @ [tud]\<rparr>)))"

definition addImport :: "Env \<Rightarrow> NameBinder \<Rightarrow> DeclPtr \<Rightarrow> Identifier \<Rightarrow> SMLoc \<Rightarrow> NameBinder" where
  "addImport W B ID Name ImportLoc =
     (case getReferencedModule W B ImportLoc Name of
        (Some RM, B') \<Rightarrow> B'\<lparr>Imports := Imports B' @ [(ID, RM)]\<rparr>
      | (None, B') \<Rightarrow> B')"

text \<open>
  The loop of \<open>bindValueName\<close> over \<open>Imports\<close>: the result of the first lookup that is
  not null, and the imports with the caches the lookups made so far have built.
\<close>

fun bindValueName_scan ::
  "(DeclPtr \<times> ReferencedModule) list \<Rightarrow> Identifier
     \<Rightarrow> DeclPtr option \<times> (DeclPtr \<times> ReferencedModule) list" where
  "bindValueName_scan [] Name = (None, [])"
| "bindValueName_scan ((ID, RM) # Is) Name =
     (case lookupValue RM ID Name of
        (Some D, RM') \<Rightarrow> (Some D, (ID, RM') # Is)
      | (None, RM') \<Rightarrow>
          (case bindValueName_scan Is Name of (r, Is') \<Rightarrow> (r, (ID, RM') # Is')))"

definition bindValueName :: "NameBinder \<Rightarrow> Identifier \<Rightarrow> SMLoc \<Rightarrow> Expr option \<times> NameBinder" where
  "bindValueName B Name Loc =
     (case Mapping.lookup (TopLevelValues B) Name of
        Some VD \<Rightarrow> (Some (DeclRefExpr VD Loc), B)
      | None \<Rightarrow>
          (case bindValueName_scan (Imports B) Name of
             (Some D, Is') \<Rightarrow> (Some (DeclRefExpr D Loc), B\<lparr>Imports := Is'\<rparr>)
           | (None, Is') \<Rightarrow>
               (None, error (B\<lparr>Imports := Is'\<rparr>) Loc
                        (''use of unresolved identifier '' @ [CHR 0x27] @ Name @ [CHR 0x27]))))"

definition BindNames :: "Expr \<Rightarrow> WalkOrder \<Rightarrow> NameBinder \<Rightarrow> Expr option \<times> NameBinder" where
  "BindNames E Order Binder =
     (if Order = Walk_PreOrder then (Some E, Binder)
      else case E of
             UnresolvedDeclRefExpr Name Loc \<Rightarrow> bindValueName Binder Name Loc
           | _ \<Rightarrow> (Some E, Binder))"

subsection \<open>The expression walk\<close>

text \<open>
  Modelled from the spec: \<open>Expr::WalkExpr\<close> (lib/AST/Expr.cpp is not part of the sources
  at hand). The walk visits children before parents and left to right, and calls the
  function on a node once the node's children have been walked; what the function
  returns replaces the node, and an absent result leaves a hole in the parent, after which
  the walk goes on. A child that is already absent is skipped. The call in pre-order,
  which \<open>BindNames\<close> answers with the node itself, comes before the children and its
  result is read only as go on (present) or stop here (absent).
\<close>

fun WalkExpr ::
  "(Expr \<Rightarrow> WalkOrder \<Rightarrow> 's \<Rightarrow> Expr option \<times> 's) \<Rightarrow> Expr \<Rightarrow> 's \<Rightarrow> Expr option \<times> 's"
and WalkChildren ::
  "(Expr \<Rightarrow> WalkOrder \<Rightarrow> 's \<Rightarrow> Expr option \<times> 's) \<Rightarrow> Expr option list \<Rightarrow> 's
     \<Rightarrow> Expr option list \<times> 's" where
  "WalkExpr Fn (OtherExpr k Cs) s =
     (case Fn (OtherExpr k Cs) Walk_PreOrder s of
        (None, s1) \<Rightarrow> (None, s1)
      | (Some _, s1) \<Rightarrow>
          (case WalkChildren Fn Cs s1 of
             (Cs', s2) \<Rightarrow> Fn (OtherExpr k Cs') Walk_PostOrder s2))"
| "WalkExpr Fn (UnresolvedDeclRefExpr Name Loc) s =
     (case Fn (UnresolvedDeclRefExpr Name Loc) Walk_PreOrder s of
        (None, s1) \<Rightarrow> (None, s1)
      | (Some _, s1) \<Rightarrow> Fn (UnresolvedDeclRefExpr Name Loc) Walk_PostOrder s1)"
| "WalkExpr Fn (DeclRefExpr D Loc) s =
     (case Fn (DeclRefExpr D Loc) Walk_PreOrder s of
        (None, s1) \<Rightarrow> (None, s1)
      | (Some _, s1) \<Rightarrow> Fn (DeclRefExpr D Loc) Walk_PostOrder s1)"
| "WalkChildren Fn [] s = ([], s)"
| "WalkChildren Fn (None # Cs) s =
     (case WalkChildren Fn Cs s of (Cs', s1) \<Rightarrow> (None # Cs', s1))"
| "WalkChildren Fn (Some C # Cs) s =
     (case WalkExpr Fn C s of
        (C', s1) \<Rightarrow> (case WalkChildren Fn Cs s1 of (Cs', s2) \<Rightarrow> (C' # Cs', s2)))"

subsection \<open>performNameBinding\<close>

text \<open>The body of the first loop, for one element of \<open>TUD->Decls\<close>.\<close>

definition prepass_step :: "Env \<Rightarrow> DeclPtr \<Rightarrow> Decl \<Rightarrow> NameBinder \<Rightarrow> NameBinder" where
  "prepass_step W I D Binder =
     (let B1 = (case D of
                  ValueDecl Name Init \<Rightarrow>
                    if Name \<noteq> [] then addNamedTopLevelDecl Binder I Name else Binder
                | _ \<Rightarrow> Binder)
      in case D of
           ImportDecl Name ImportLoc \<Rightarrow> addImport W B1 I Name ImportLoc
         | _ \<Rightarrow> B1)"

fun prepass :: "Env \<Rightarrow> (DeclPtr \<times> Decl) list \<Rightarrow> NameBinder \<Rightarrow> NameBinder" where
  "prepass W [] Binder = Binder"
| "prepass W ((I, D) # Ds) Binder = prepass W Ds (prepass_step W I D Binder)"

text \<open>The body of the second loop: \<open>VD->Init = VD->Init->WalkExpr(BindNames, &Binder)\<close>.\<close>

definition rewrite_step :: "Decl \<Rightarrow> NameBinder \<Rightarrow> Decl \<times> NameBinder" where
  "rewrite_step D Binder =
     (case D of
        ValueDecl Name (Some Init) \<Rightarrow>
          (case WalkExpr BindNames Init Binder of
             (Init', Binder') \<Rightarrow> (ValueDecl Name Init', Binder'))
      | _ \<Rightarrow> (D, Binder))"

fun rewrite :: "(DeclPtr \<times> Decl) list \<Rightarrow> NameBinder \<Rightarrow> (DeclPtr \<times> Decl) list \<times> NameBinder" where
  "rewrite [] Binder = ([], Binder)"
| "rewrite ((I, D) # Ds) Binder =
     (case rewrite_step D Binder of
        (D', B1) \<Rightarrow> (case rewrite Ds B1 of (Ds', B2) \<Rightarrow> ((I, D') # Ds', B2)))"

text \<open>
  The whole pass, with the binder it ends in (the binder is destroyed on return; it is
  kept here to state what holds of it).
\<close>

definition performNameBinding_run ::
  "Env \<Rightarrow> TranslationUnitDecl \<Rightarrow> ASTContext \<Rightarrow> TranslationUnitDecl \<times> NameBinder" where
  "performNameBinding_run W tud Ctx =
     (let Binder = prepass W (Decls tud) (NameBinder_new Ctx)
      in case rewrite (Decls tud) Binder of
           (Ds', Binder') \<Rightarrow> (tud\<lparr>Decls := Ds'\<rparr>, Binder'))"

definition performNameBinding ::
  "Env \<Rightarrow> TranslationUnitDecl \<Rightarrow> ASTContext \<Rightarrow> TranslationUnitDecl \<times> ASTContext" where
  "performNameBinding W tud Ctx =
     (case performNameBinding_run W tud Ctx of (tud', Binder) \<Rightarrow> (tud', Context Binder))"

subsection \<open>The rewrite as the spec words it\<close>

text \<open>
  Following the spec, not the source: every Unresolved Reference is replaced by what
  resolving its name at its location gives, every other node is kept, an absent child
  stays absent. \<open>resolve\<close> is the resolution operation, taken as a function.
\<close>

fun rewrite_spec :: "(Identifier \<Rightarrow> SMLoc \<Rightarrow> Expr option) \<Rightarrow> Expr \<Rightarrow> Expr option" where
  "rewrite_spec resolve (UnresolvedDeclRefExpr Name Loc) = resolve Name Loc"
| "rewrite_spec resolve (DeclRefExpr D Loc) = Some (DeclRefExpr D Loc)"
| "rewrite_spec resolve (OtherExpr k Cs) =
     Some (OtherExpr k (map (\<lambda>C. case C of None \<Rightarrow> None | Some E \<Rightarrow> rewrite_spec resolve E) Cs))"

subsection \<open>Auxiliary notions for the proofs\<close>

text \<open>
  Two modules answer every lookup alike; two import lists, and two binders, do so entry by
  entry. A lookup may build a cache, and these relations say that nothing else changed.
\<close>

definition rm_equiv :: "ReferencedModule \<Rightarrow> ReferencedModule \<Rightarrow> bool" where
  "rm_equiv RM RM' \<longleftrightarrow> (\<forall>ID n. fst (lookupValue RM' ID n) = fst (lookupValue RM ID n))"

definition imports_equiv ::
  "(DeclPtr \<times> ReferencedModule) list \<Rightarrow> (DeclPtr \<times> ReferencedModule) list \<Rightarrow> bool" where
  "imports_equiv = list_all2 (\<lambda>a b. fst a = fst b \<and> rm_equiv (snd a) (snd b))"

definition binder_equiv :: "NameBinder \<Rightarrow> NameBinder \<Rightarrow> bool" where
  "binder_equiv B B' \<longleftrightarrow>
     TopLevelValues B' = TopLevelValues B \<and> imports_equiv (Imports B) (Imports B')"

text \<open>Whether a declaration is a value declaration of the given name.\<close>

fun declaresValue :: "Identifier \<Rightarrow> Decl \<Rightarrow> bool" where
  "declaresValue n (ValueDecl Name Init) = (Name = n)"
| "declaresValue n _ = False"

text \<open>
  The operations a binder goes through: the body of the prepass for one declaration, and
  one resolution. \<open>keys_ok\<close> says that the empty identifier is no key of any table.
\<close>

datatype BinderOp = RegisterOp DeclPtr Decl | ResolveOp Identifier SMLoc

fun apply_op :: "Env \<Rightarrow> BinderOp \<Rightarrow> NameBinder \<Rightarrow> NameBinder" where
  "apply_op W (RegisterOp I D) B = prepass_step W I D B"
| "apply_op W (ResolveOp Name Loc) B = snd (bindValueName B Name Loc)"

definition keys_ok :: "NameBinder \<Rightarrow> bool" where
  "keys_ok B \<longleftrightarrow>
     [] \<notin> Mapping.keys (TopLevelValues B)
     \<and> (\<forall>(ID, RM) \<in> set (Imports B). [] \<notin> Mapping.keys (TopLevelValues_RM RM))"

text \<open>
  The node of a tree at a path, a path being the positions of the children taken from the
  root down; there is none when the path leaves the tree or crosses a hole.
\<close>

fun subexpr_at :: "Expr option \<Rightarrow> nat list \<Rightarrow> Expr option" where
  "subexpr_at E [] = E"
| "subexpr_at (Some (OtherExpr k Cs)) (c # path) =
     (if c < length Cs then subexpr_at (Cs ! c) path else None)"
| "subexpr_at _ (c # path) = None"

section \<open>Properties\<close>

subsection \<open>The map of top-level values\<close>

lemma build_append:
  "lookupValue_build (xs @ ys) M = lookupValue_build ys (lookupValue_build xs M)"
  by (induction xs M rule: lookupValue_build.induct) simp_all

lemma build_absent:
  "\<forall>(q, D) \<in> set Ds. \<forall>i. D \<noteq> ValueDecl n i \<Longrightarrow>
   Mapping.lookup (lookupValue_build Ds M) n = Mapping.lookup M n"
  by (induction Ds M rule: lookupValue_build.induct)
     (auto split: Decl.splits simp: Mapping.lookup_update')

lemma build_keys:
  "Mapping.keys (lookupValue_build Ds M) =
     Mapping.keys M \<union> {n. n \<noteq> [] \<and> (\<exists>q i. (q, ValueDecl n i) \<in> set Ds)}"
  by (induction Ds M rule: lookupValue_build.induct)
     (auto split: Decl.splits)

lemma build_last:
  "n \<noteq> [] \<Longrightarrow> \<forall>(q, D) \<in> set ds2. \<forall>i. D \<noteq> ValueDecl n i \<Longrightarrow>
   Mapping.lookup (lookupValue_build (ds1 @ (p, ValueDecl n init) # ds2) M) n = Some p"
  by (simp add: build_append build_absent)

lemma build_is_empty:
  "Mapping.is_empty (lookupValue_build Ds M) \<Longrightarrow> lookupValue_build Ds M = M"
proof (induction Ds M rule: lookupValue_build.induct)
  case (1 M)
  then show ?case by simp
next
  case (2 VD D Ds M)
  define M' where "M' = (case D of
          ValueDecl Name Init \<Rightarrow> if Name \<noteq> [] then Mapping.update Name VD M else M
        | _ \<Rightarrow> M)"
  from 2 have e: "lookupValue_build Ds M' = M'" and emp: "Mapping.is_empty (lookupValue_build Ds M')"
    by (simp_all add: M'_def)
  then have "Mapping.is_empty M'" by simp
  then have "M' = M"
    by (auto simp: M'_def split: Decl.splits if_splits)
  with e show ?case by (simp add: M'_def)
qed

lemma lookupValue_stable:
  "fst (lookupValue (snd (lookupValue RM ID n)) ID' n') = fst (lookupValue RM ID' n')"
  by (auto simp: lookupValue_def Let_def build_is_empty)

lemma lookupValue_twice:
  "lookupValue (snd (lookupValue RM ID n)) ID' n' =
     (fst (lookupValue RM ID' n'), snd (lookupValue RM ID n))"
  by (auto simp: lookupValue_def Let_def build_is_empty)

lemma rm_equiv_lookup: "rm_equiv RM (snd (lookupValue RM ID n))"
  by (simp add: rm_equiv_def lookupValue_stable)

lemma rm_equiv_refl: "rm_equiv RM RM"
  by (simp add: rm_equiv_def)

lemma imports_equiv_refl: "imports_equiv Is Is"
  by (simp add: imports_equiv_def list_all2_refl rm_equiv_refl)

lemma imports_equiv_trans: "imports_equiv a b \<Longrightarrow> imports_equiv b c \<Longrightarrow> imports_equiv a c"
  unfolding imports_equiv_def
  by (rule list_all2_trans[where ?P1.0 = "\<lambda>a b. fst a = fst b \<and> rm_equiv (snd a) (snd b)"
        and ?P2.0 = "\<lambda>a b. fst a = fst b \<and> rm_equiv (snd a) (snd b)"])
     (auto simp: rm_equiv_def)

lemma scan_equiv: "imports_equiv Is (snd (bindValueName_scan Is n))"
proof (induction Is n rule: bindValueName_scan.induct)
  case (1 Name)
  then show ?case by (simp add: imports_equiv_def)
next
  case (2 ID RM Is Name)
  obtain r RM' where l: "lookupValue RM ID Name = (r, RM')" by (cases "lookupValue RM ID Name")
  then have e: "rm_equiv RM RM'" using rm_equiv_lookup[of RM ID Name] by simp
  show ?case
  proof (cases r)
    case None
    with 2 l e show ?thesis
      by (auto simp: imports_equiv_def split: prod.splits)
  next
    case (Some D)
    with l e imports_equiv_refl[of Is] show ?thesis
      by (auto simp: imports_equiv_def)
  qed
qed

lemma scan_cong: "imports_equiv Is Js \<Longrightarrow> fst (bindValueName_scan Is n) = fst (bindValueName_scan Js n)"
proof (induction Is arbitrary: Js)
  case Nil
  then show ?case by (simp add: imports_equiv_def)
next
  case (Cons a Is)
  then obtain b Js' where J: "Js = b # Js'" "fst a = fst b" "rm_equiv (snd a) (snd b)" "imports_equiv Is Js'"
    by (auto simp: imports_equiv_def list_all2_Cons1)
  then have "fst (lookupValue (snd b) (fst b) n) = fst (lookupValue (snd a) (fst a) n)"
    by (simp add: rm_equiv_def)
  with Cons.IH[OF J(4)] J(1) show ?case
    by (cases a; cases b) (auto split: prod.splits option.splits)
qed

lemma scan_find:
  "fst (bindValueName_scan Is n) =
     (case List.find (\<lambda>(ID, RM). fst (lookupValue RM ID n) \<noteq> None) Is of
        None \<Rightarrow> None
      | Some (ID, RM) \<Rightarrow> fst (lookupValue RM ID n))"
  by (induction Is n rule: bindValueName_scan.induct) (auto split: prod.splits option.splits)


lemma binder_equiv_refl: "binder_equiv B B"
  by (simp add: binder_equiv_def imports_equiv_refl)

lemma binder_equiv_trans: "binder_equiv a b \<Longrightarrow> binder_equiv b c \<Longrightarrow> binder_equiv a c"
  by (auto simp: binder_equiv_def intro: imports_equiv_trans)

lemma bindValueName_TopLevelValues:
  "TopLevelValues (snd (bindValueName B n l)) = TopLevelValues B"
  by (simp add: bindValueName_def error_def split: option.splits prod.splits)

lemma bindValueName_Imports:
  "Imports (snd (bindValueName B n l)) =
     (case Mapping.lookup (TopLevelValues B) n of
        Some VD \<Rightarrow> Imports B
      | None \<Rightarrow> snd (bindValueName_scan (Imports B) n))"
  by (simp add: bindValueName_def error_def split: option.splits prod.splits)

lemma bindValueName_equiv: "binder_equiv B (snd (bindValueName B n l))"
  by (simp add: binder_equiv_def bindValueName_TopLevelValues bindValueName_Imports
        imports_equiv_refl scan_equiv split: option.splits)

lemma bindValueName_fst:
  "fst (bindValueName B n l) =
     (case Mapping.lookup (TopLevelValues B) n of
        Some VD \<Rightarrow> Some (DeclRefExpr VD l)
      | None \<Rightarrow> map_option (\<lambda>D. DeclRefExpr D l) (fst (bindValueName_scan (Imports B) n)))"
  by (simp add: bindValueName_def split: option.splits prod.splits)

lemma bindValueName_cong:
  "binder_equiv B B' \<Longrightarrow> fst (bindValueName B' n l) = fst (bindValueName B n l)"
  using scan_cong[of "Imports B" "Imports B'" n]
  by (simp add: bindValueName_fst binder_equiv_def split: option.splits)

lemma BindNames_pre: "BindNames E Walk_PreOrder B = (Some E, B)"
  by (simp add: BindNames_def)

lemma walk_spec:
  "binder_equiv B0 B \<Longrightarrow>
     fst (WalkExpr BindNames E B) = rewrite_spec (\<lambda>n l. fst (bindValueName B0 n l)) E
     \<and> binder_equiv B0 (snd (WalkExpr BindNames E B))"
  "binder_equiv B0 B \<Longrightarrow>
     fst (WalkChildren BindNames Cs B)
       = map (\<lambda>C. case C of None \<Rightarrow> None
                   | Some E \<Rightarrow> rewrite_spec (\<lambda>n l. fst (bindValueName B0 n l)) E) Cs
     \<and> binder_equiv B0 (snd (WalkChildren BindNames Cs B))"
proof (induction BindNames E B and BindNames Cs B arbitrary: and rule: WalkExpr_WalkChildren.induct)
  case (1 k Cs s)
  from 1(1)[OF _ _ 1(2)] show ?case
    by (cases "WalkChildren BindNames Cs s") (simp add: BindNames_pre, simp add: BindNames_def)
next
  case (2 Name Loc s)
  have "binder_equiv s (snd (bindValueName s Name Loc))" by (rule bindValueName_equiv)
  with 2 have "binder_equiv B0 (snd (bindValueName s Name Loc))"
    by (blast intro: binder_equiv_trans)
  with 2 show ?case
    by (simp add: BindNames_pre) (simp add: BindNames_def bindValueName_cong)
next
  case (3 D Loc s)
  then show ?case by (simp add: BindNames_pre) (simp add: BindNames_def)
next
  case (4 s)
  then show ?case by simp
next
  case (5 Cs s)
  from 5(1)[OF 5(2)] show ?case by (cases "WalkChildren BindNames Cs s") simp
next
  case (6 C Cs s)
  from 6(1)[OF 6(3)] have a: "fst (WalkExpr BindNames C s) = rewrite_spec (\<lambda>n l. fst (bindValueName B0 n l)) C"
    and b: "binder_equiv B0 (snd (WalkExpr BindNames C s))" by simp_all
  obtain C' s1 where w: "WalkExpr BindNames C s = (C', s1)" by (cases "WalkExpr BindNames C s")
  with b have "binder_equiv B0 s1" by simp
  from 6(2)[OF w[symmetric] this] a w show ?case
    by (cases "WalkChildren BindNames Cs s1") simp
qed

subsection \<open>The two passes\<close>

lemma declaresValue_iff: "declaresValue n D \<longleftrightarrow> (\<exists>i. D = ValueDecl n i)"
  by (cases D) auto

lemma build_absent':
  "\<forall>(q, D) \<in> set Ds. \<not> declaresValue n D \<Longrightarrow>
   Mapping.lookup (lookupValue_build Ds M) n = Mapping.lookup M n"
  by (rule build_absent) (auto simp: declaresValue_iff)

lemma build_last':
  "n \<noteq> [] \<Longrightarrow> \<forall>(q, D) \<in> set ds2. \<not> declaresValue n D \<Longrightarrow>
   Mapping.lookup (lookupValue_build (ds1 @ (p, ValueDecl n init) # ds2) M) n = Some p"
  by (rule build_last) (auto simp: declaresValue_iff)

lemma error_fields:
  "TopLevelValues (error B l m) = TopLevelValues B"
  "Imports (error B l m) = Imports B"
  "LoadedModules (error B l m) = LoadedModules B"
  "HadError (Context (error B l m))"
  "Messages (Context (error B l m)) = Messages (Context B) @ [(l, m, ''error'')]"
  "Buffers (Context (error B l m)) = Buffers (Context B)"
  by (simp_all add: error_def)

lemma getReferencedModule_fields:
  "TopLevelValues (snd (getReferencedModule W B l m)) = TopLevelValues B"
  "Imports (snd (getReferencedModule W B l m)) = Imports B"
  by (simp_all add: getReferencedModule_def Let_def error_fields split: sum.splits prod.splits option.splits)

lemma addImport_TopLevelValues: "TopLevelValues (addImport W B ID n l) = TopLevelValues B"
  using getReferencedModule_fields(1)[of W B l n]
  by (cases "getReferencedModule W B l n") (auto simp: addImport_def split: option.splits)

lemma prepass_step_TopLevelValues:
  "TopLevelValues (prepass_step W I D B) = lookupValue_build [(I, D)] (TopLevelValues B)"
  by (cases D) (simp_all add: prepass_step_def addNamedTopLevelDecl_def addImport_TopLevelValues)

lemma prepass_TopLevelValues:
  "TopLevelValues (prepass W Ds B) = lookupValue_build Ds (TopLevelValues B)"
  by (induction W Ds B rule: prepass.induct) (simp_all add: prepass_step_TopLevelValues)

lemma prepass_append: "prepass W (xs @ ys) B = prepass W ys (prepass W xs B)"
  by (induction W xs B rule: prepass.induct) simp_all

lemma walk_leaf:
  "WalkExpr BindNames (UnresolvedDeclRefExpr n l) B = bindValueName B n l"
  by (simp add: BindNames_pre) (simp add: BindNames_def)

lemma walk_invariant:
  assumes step: "\<And>B n l. P B \<Longrightarrow> P (snd (bindValueName B n l))"
  shows "P B \<Longrightarrow> P (snd (WalkExpr BindNames E B))"
    and "P B \<Longrightarrow> P (snd (WalkChildren BindNames Cs B))"
proof (induction BindNames E B and BindNames Cs B rule: WalkExpr_WalkChildren.induct)
  case (1 k Cs s)
  from 1(1)[OF _ _ 1(2)] show ?case
    by (cases "WalkChildren BindNames Cs s") (simp add: BindNames_pre, simp add: BindNames_def)
next
  case (2 Name Loc s)
  from step[OF 2] show ?case by (simp add: BindNames_pre) (simp add: BindNames_def)
next
  case (3 D Loc s)
  then show ?case by (simp add: BindNames_pre) (simp add: BindNames_def)
next
  case (4 s)
  then show ?case by simp
next
  case (5 Cs s)
  from 5(1)[OF 5(2)] show ?case by (cases "WalkChildren BindNames Cs s") simp
next
  case (6 C Cs s)
  obtain C' s1 where w: "WalkExpr BindNames C s = (C', s1)" by (cases "WalkExpr BindNames C s")
  with 6(1)[OF 6(3)] have "P s1" by simp
  from 6(2)[OF w[symmetric] this] w show ?case
    by (cases "WalkChildren BindNames Cs s1") simp
qed

lemma rewrite_step_invariant:
  assumes step: "\<And>B n l. P B \<Longrightarrow> P (snd (bindValueName B n l))"
  shows "P B \<Longrightarrow> P (snd (rewrite_step D B))"
  using walk_invariant(1)[of P, OF step]
  by (auto simp: rewrite_step_def split: Decl.splits option.splits prod.splits)
     (metis snd_conv)

lemma rewrite_invariant:
  assumes step: "\<And>B n l. P B \<Longrightarrow> P (snd (bindValueName B n l))"
  shows "P B \<Longrightarrow> P (snd (rewrite Ds B))"
proof (induction Ds B rule: rewrite.induct)
  case (1 Binder)
  then show ?case by simp
next
  case (2 I D Ds Binder)
  obtain D' B1 where r: "rewrite_step D Binder = (D', B1)" by (cases "rewrite_step D Binder")
  with rewrite_step_invariant[of P Binder D, OF step 2(2)] have "P B1" by simp
  from 2(1)[OF r[symmetric] this] r show ?case
    by (cases "rewrite Ds B1") simp
qed

lemma rewrite_TopLevelValues: "TopLevelValues (snd (rewrite Ds B)) = TopLevelValues B"
  by (rule rewrite_invariant[of "\<lambda>X. TopLevelValues X = TopLevelValues B"])
     (simp_all add: bindValueName_TopLevelValues)

lemma rewrite_length: "length (fst (rewrite Ds B)) = length Ds"
  by (induction Ds B rule: rewrite.induct) (auto split: prod.splits)

lemma rewrite_append:
  "rewrite (xs @ ys) B =
     (case rewrite xs B of (xs', B1) \<Rightarrow> case rewrite ys B1 of (ys', B2) \<Rightarrow> (xs' @ ys', B2))"
  by (induction xs B rule: rewrite.induct) (auto split: prod.splits)

lemma rewrite_nth:
  "i < length Ds \<Longrightarrow>
   fst (rewrite Ds B) ! i =
     (fst (Ds ! i), fst (rewrite_step (snd (Ds ! i)) (snd (rewrite (take i Ds) B))))"
proof -
  assume i: "i < length Ds"
  then have Ds: "Ds = take i Ds @ (Ds ! i) # drop (Suc i) Ds"
    by (simp add: id_take_nth_drop)
  obtain xs' B1 where a: "rewrite (take i Ds) B = (xs', B1)" by (cases "rewrite (take i Ds) B")
  then have l: "length xs' = i" using rewrite_length[of "take i Ds" B] i by simp
  obtain I D where d: "Ds ! i = (I, D)" by (cases "Ds ! i")
  have "fst (rewrite (take i Ds @ (Ds ! i) # drop (Suc i) Ds) B) ! i
      = (fst (Ds ! i), fst (rewrite_step (snd (Ds ! i)) (snd (rewrite (take i Ds) B))))"
    using a l d by (auto simp: rewrite_append nth_append split: prod.splits)
  with Ds show ?thesis by simp
qed

lemma prepass_table_last:
  assumes j: "j < length Ds" and decl: "Ds ! j = (p, ValueDecl n init)" and n: "n \<noteq> []"
    and last: "\<forall>k. j < k \<and> k < length Ds \<longrightarrow> \<not> declaresValue n (snd (Ds ! k))"
  shows "Mapping.lookup (lookupValue_build Ds M) n = Some p"
proof -
  have Ds: "Ds = take j Ds @ (p, ValueDecl n init) # drop (Suc j) Ds"
    using id_take_nth_drop[OF j] decl by simp
  have "\<forall>(q, D) \<in> set (drop (Suc j) Ds). \<not> declaresValue n D"
  proof (clarify)
    fix q D assume "(q, D) \<in> set (drop (Suc j) Ds)" and d: "declaresValue n D"
    then obtain k where "k < length (drop (Suc j) Ds)" "drop (Suc j) Ds ! k = (q, D)"
      by (auto simp: in_set_conv_nth)
    then have "Suc j + k < length Ds" "Ds ! (Suc j + k) = (q, D)" by auto
    with last d show False by (metis less_add_Suc1 add_Suc snd_conv)
  qed
  from build_last'[OF n this, of "take j Ds" p init M] Ds show ?thesis by simp
qed

lemma performNameBinding_Decls:
  "Decls (fst (performNameBinding W tud Ctx))
     = fst (rewrite (Decls tud) (prepass W (Decls tud) (NameBinder_new Ctx)))"
  by (cases "rewrite (Decls tud) (prepass W (Decls tud) (NameBinder_new Ctx))")
     (simp add: performNameBinding_def performNameBinding_run_def)

lemma scan_none:
  "\<forall>(ID, RM) \<in> set Is. fst (lookupValue RM ID n) = None \<Longrightarrow> fst (bindValueName_scan Is n) = None"
  by (induction Is n rule: bindValueName_scan.induct) (auto split: prod.splits option.splits)

lemma bindValueName_unresolved:
  assumes "Mapping.lookup (TopLevelValues B) Name = None"
    and "\<forall>(ID, RM) \<in> set (Imports B). fst (lookupValue RM ID Name) = None"
  shows "bindValueName B Name Loc =
     (None, error (B\<lparr>Imports := snd (bindValueName_scan (Imports B) Name)\<rparr>) Loc
              (''use of unresolved identifier '' @ [CHR 0x27] @ Name @ [CHR 0x27]))"
  using assms(1) scan_none[OF assms(2)]
  by (cases "bindValueName_scan (Imports B) Name") (simp add: bindValueName_def)

lemma rewrite_equiv: "binder_equiv B0 B \<Longrightarrow> binder_equiv B0 (snd (rewrite Ds B))"
  by (rule rewrite_invariant[of "binder_equiv B0"])
     (blast intro: binder_equiv_trans bindValueName_equiv)

lemma rewrite_step_spec:
  "binder_equiv B0 B \<Longrightarrow>
   fst (rewrite_step (ValueDecl Name (Some E)) B)
     = ValueDecl Name (rewrite_spec (\<lambda>n l. fst (bindValueName B0 n l)) E)"
  using walk_spec(1)[of B0 B E]
  by (cases "WalkExpr BindNames E B") (simp add: rewrite_step_def)

lemma performNameBinding_nth:
  assumes "i < length (Decls tud)" and "Decls tud ! i = (q, ValueDecl Name (Some E))"
  shows "Decls (fst (performNameBinding W tud Ctx)) ! i
     = (q, ValueDecl Name
            (rewrite_spec
               (\<lambda>n l. fst (bindValueName (prepass W (Decls tud) (NameBinder_new Ctx)) n l)) E))"
proof -
  let ?B1 = "prepass W (Decls tud) (NameBinder_new Ctx)"
  have "binder_equiv ?B1 (snd (rewrite (take i (Decls tud)) ?B1))"
    by (rule rewrite_equiv) (rule binder_equiv_refl)
  from rewrite_step_spec[OF this, of Name E] rewrite_nth[OF assms(1), of ?B1] assms(2)
  show ?thesis by (simp add: performNameBinding_Decls)
qed

lemma lookupValue_keys:
  "[] \<notin> Mapping.keys (TopLevelValues_RM RM) \<Longrightarrow>
   [] \<notin> Mapping.keys (TopLevelValues_RM (snd (lookupValue RM ID n)))"
  by (simp add: lookupValue_def Let_def build_keys)

lemma scan_keys:
  "\<forall>(ID, RM) \<in> set Is. [] \<notin> Mapping.keys (TopLevelValues_RM RM) \<Longrightarrow>
   \<forall>(ID, RM) \<in> set (snd (bindValueName_scan Is n)). [] \<notin> Mapping.keys (TopLevelValues_RM RM)"
proof (induction Is n rule: bindValueName_scan.induct)
  case (1 Name)
  then show ?case by simp
next
  case (2 ID RM Is Name)
  obtain r RM' where l: "lookupValue RM ID Name = (r, RM')" by (cases "lookupValue RM ID Name")
  with lookupValue_keys[of RM ID Name] 2(2) have k: "[] \<notin> Mapping.keys (TopLevelValues_RM RM')"
    by simp
  show ?case
  proof (cases r)
    case None
    with 2 l k show ?thesis by (cases "bindValueName_scan Is Name") auto
  next
    case (Some D)
    with 2(2) l k show ?thesis by auto
  qed
qed

lemma keys_ok_new: "keys_ok (NameBinder_new C)"
  by (simp add: keys_ok_def NameBinder_new_def)

lemma keys_ok_bind: "keys_ok B \<Longrightarrow> keys_ok (snd (bindValueName B n l))"
  using scan_keys[of "Imports B" n]
  by (auto simp: keys_ok_def bindValueName_TopLevelValues bindValueName_Imports split: option.splits)

lemma addImport_Imports:
  "Imports (addImport W B ID n l) = Imports B
   \<or> (\<exists>tud. Imports (addImport W B ID n l) = Imports B @ [(ID, ReferencedModule_new tud)])"
  by (auto simp: addImport_def getReferencedModule_def Let_def error_def
           split: sum.splits prod.splits option.splits)

lemma prepass_step_Imports:
  "Imports (prepass_step W I D B) = Imports B
   \<or> (\<exists>tud. Imports (prepass_step W I D B) = Imports B @ [(I, ReferencedModule_new tud)])"
  using addImport_Imports[of W B I]
  by (cases D) (simp_all add: prepass_step_def addNamedTopLevelDecl_def)

lemma keys_ok_step: "keys_ok B \<Longrightarrow> keys_ok (prepass_step W I D B)"
  using prepass_step_Imports[of W I D B]
  by (auto simp: keys_ok_def prepass_step_TopLevelValues build_keys ReferencedModule_new_def
           split: Decl.splits)

lemma keys_ok_op: "keys_ok B \<Longrightarrow> keys_ok (apply_op W x B)"
  by (cases x) (simp_all add: keys_ok_step keys_ok_bind)

lemma keys_ok_ops: "keys_ok B \<Longrightarrow> keys_ok (fold (apply_op W) ops B)"
  by (induction ops arbitrary: B) (simp_all add: keys_ok_op)

lemma keys_ok_prepass: "keys_ok B \<Longrightarrow> keys_ok (prepass W Ds B)"
  by (induction W Ds B rule: prepass.induct) (simp_all add: keys_ok_step)

lemma keys_ok_run: "keys_ok (snd (performNameBinding_run W tud Ctx))"
proof -
  have "keys_ok (snd (rewrite (Decls tud) (prepass W (Decls tud) (NameBinder_new Ctx))))"
    by (rule rewrite_invariant[of keys_ok]) (simp_all add: keys_ok_bind keys_ok_prepass keys_ok_new)
  then show ?thesis
    by (cases "rewrite (Decls tud) (prepass W (Decls tud) (NameBinder_new Ctx))")
       (simp add: performNameBinding_run_def)
qed

lemma build_empty_iff:
  "Mapping.is_empty (lookupValue_build Ds Mapping.empty)
     \<longleftrightarrow> (\<forall>(q, D) \<in> set Ds. \<forall>n. n \<noteq> [] \<longrightarrow> \<not> declaresValue n D)"
  by (simp add: Mapping.is_empty_def build_keys) (fastforce simp: declaresValue_iff)

lemma subexpr_at_None: "subexpr_at None path = None"
  by (cases path) simp_all

lemma rewrite_spec_at:
  "subexpr_at (Some E) path = Some (UnresolvedDeclRefExpr n loc) \<Longrightarrow>
   subexpr_at (rewrite_spec resolve E) path = resolve n loc"
proof (induction path arbitrary: E)
  case Nil
  then show ?case by simp
next
  case (Cons c path)
  then obtain k Cs where E: "E = OtherExpr k Cs" by (cases E) simp_all
  with Cons.prems have c: "c < length Cs"
    and s: "subexpr_at (Cs ! c) path = Some (UnresolvedDeclRefExpr n loc)"
    by (simp_all split: if_splits)
  from s obtain E' where E': "Cs ! c = Some E'"
    by (cases "Cs ! c") (simp_all add: subexpr_at_None)
  with s Cons.IH[of E'] have "subexpr_at (rewrite_spec resolve E') path = resolve n loc" by simp
  with E c E' show ?case by simp
qed

section \<open>The claims\<close>

text \<open>
  C1. Resolution looks a name up in the binder's own table first and, on a hit, answers
  with a reference to that local declaration, whatever the imports hold. Only when the
  name is absent there does it go through the imports from the front, and the answer is
  then the declaration found in the first import whose lookup is not empty; when there
  is no such import the answer is absent.
\<close>

theorem bindValueName_precedence:
  "fst (bindValueName B Name Loc) =
     (case Mapping.lookup (TopLevelValues B) Name of
        Some VD \<Rightarrow> Some (DeclRefExpr VD Loc)
      | None \<Rightarrow>
          (case List.find (\<lambda>(ID, RM). fst (lookupValue RM ID Name) \<noteq> None) (Imports B) of
             None \<Rightarrow> None
           | Some (ID, RM) \<Rightarrow>
               map_option (\<lambda>D. DeclRefExpr D Loc) (fst (lookupValue RM ID Name))))"
  by (simp add: bindValueName_fst scan_find split: option.splits prod.splits)

theorem bindValueName_precedence_witness:
  "fst (bindValueName
     \<lparr>LoadedModules = [], TopLevelValues = Mapping.update ''a'' 1 Mapping.empty,
      Imports = [(2, ReferencedModule_new \<lparr>Decls = [(7, ValueDecl ''g'' None)]\<rparr>),
                 (3, ReferencedModule_new \<lparr>Decls = [(10, ValueDecl ''a'' None), (11, ValueDecl ''h'' None)]\<rparr>),
                 (4, ReferencedModule_new \<lparr>Decls = [(20, ValueDecl ''h'' None)]\<rparr>)],
      Context = \<lparr>Buffers = [], Messages = [], HadError = False\<rparr>\<rparr> ''a'' 5) = Some (DeclRefExpr 1 5)
   \<and> fst (bindValueName
     \<lparr>LoadedModules = [], TopLevelValues = Mapping.update ''a'' 1 Mapping.empty,
      Imports = [(2, ReferencedModule_new \<lparr>Decls = [(7, ValueDecl ''g'' None)]\<rparr>),
                 (3, ReferencedModule_new \<lparr>Decls = [(10, ValueDecl ''a'' None), (11, ValueDecl ''h'' None)]\<rparr>),
                 (4, ReferencedModule_new \<lparr>Decls = [(20, ValueDecl ''h'' None)]\<rparr>)],
      Context = \<lparr>Buffers = [], Messages = [], HadError = False\<rparr>\<rparr> ''h'' 6) = Some (DeclRefExpr 11 6)"
  by (simp add: bindValueName_precedence lookupValue_def ReferencedModule_new_def
        Mapping.lookup_update')

text \<open>
  C2. The prepass has gone over every declaration of the unit before the first reference
  is resolved: at every moment of the second pass the binder resolves a name to the value
  declaration that bears it last in the unit. So for any initializer of the unit, the
  rewritten initializer is the spec-worded rewrite under the table of the whole prepass,
  and a reference to the name at any place in it, the root or any depth below, becomes a
  reference to that declaration, whether the declaration stands after the use or before.
\<close>

theorem forward_reference:
  assumes "i < length (Decls tud)"
    and "Decls tud ! i = (q, ValueDecl m (Some E))"
    and "j < length (Decls tud)"
    and "Decls tud ! j = (p, ValueDecl n init)"
    and "n \<noteq> []"
    and "\<forall>k. j < k \<and> k < length (Decls tud) \<longrightarrow> \<not> declaresValue n (snd (Decls tud ! k))"
  shows "Decls (fst (performNameBinding W tud Ctx)) ! i
           = (q, ValueDecl m
                  (rewrite_spec
                     (\<lambda>n' l. fst (bindValueName (prepass W (Decls tud) (NameBinder_new Ctx)) n' l))
                     E))
       \<and> (\<forall>loc'. fst (bindValueName (prepass W (Decls tud) (NameBinder_new Ctx)) n loc')
                    = Some (DeclRefExpr p loc'))
       \<and> (\<forall>k loc'. fst (bindValueName
              (snd (rewrite (take k (Decls tud)) (prepass W (Decls tud) (NameBinder_new Ctx))))
              n loc') = Some (DeclRefExpr p loc'))
       \<and> (\<forall>path loc. subexpr_at (Some E) path = Some (UnresolvedDeclRefExpr n loc) \<longrightarrow>
            (\<exists>E'. Decls (fst (performNameBinding W tud Ctx)) ! i = (q, ValueDecl m E')
                  \<and> subexpr_at E' path = Some (DeclRefExpr p loc)))
       \<and> (\<forall>loc. E = UnresolvedDeclRefExpr n loc \<longrightarrow>
            Decls (fst (performNameBinding W tud Ctx)) ! i
              = (q, ValueDecl m (Some (DeclRefExpr p loc))))
       \<and> (\<forall>k loc. E = OtherExpr k [Some (UnresolvedDeclRefExpr n loc)] \<longrightarrow>
            Decls (fst (performNameBinding W tud Ctx)) ! i
              = (q, ValueDecl m (Some (OtherExpr k [Some (DeclRefExpr p loc)]))))"
proof -
  let ?B1 = "prepass W (Decls tud) (NameBinder_new Ctx)"
  have t: "Mapping.lookup (TopLevelValues ?B1) n = Some p"
    using prepass_table_last[OF assms(3) assms(4) assms(5) assms(6)]
    by (simp add: prepass_TopLevelValues)
  have 1: "Decls (fst (performNameBinding W tud Ctx)) ! i
           = (q, ValueDecl m (rewrite_spec (\<lambda>n' l. fst (bindValueName ?B1 n' l)) E))"
    by (rule performNameBinding_nth[OF assms(1) assms(2)])
  have 2: "\<forall>loc'. fst (bindValueName ?B1 n loc') = Some (DeclRefExpr p loc')"
    using t by (simp add: bindValueName_fst)
  have 3: "\<forall>k loc'. fst (bindValueName (snd (rewrite (take k (Decls tud)) ?B1)) n loc')
             = Some (DeclRefExpr p loc')"
    using t by (simp add: bindValueName_fst rewrite_TopLevelValues)
  have 4: "\<forall>loc. E = UnresolvedDeclRefExpr n loc \<longrightarrow>
            Decls (fst (performNameBinding W tud Ctx)) ! i
              = (q, ValueDecl m (Some (DeclRefExpr p loc)))"
    using 1 2 by simp
  have 5: "\<forall>k loc. E = OtherExpr k [Some (UnresolvedDeclRefExpr n loc)] \<longrightarrow>
            Decls (fst (performNameBinding W tud Ctx)) ! i
              = (q, ValueDecl m (Some (OtherExpr k [Some (DeclRefExpr p loc)])))"
    using 1 2 by simp
  have 6: "\<forall>path loc. subexpr_at (Some E) path = Some (UnresolvedDeclRefExpr n loc) \<longrightarrow>
            (\<exists>E'. Decls (fst (performNameBinding W tud Ctx)) ! i = (q, ValueDecl m E')
                  \<and> subexpr_at E' path = Some (DeclRefExpr p loc))"
    using 1 2 by (simp add: rewrite_spec_at)
  from 1 2 3 4 5 6 show ?thesis by blast
qed

theorem forward_reference_witness:
  "Decls (fst (performNameBinding
      \<lparr>getFile = (\<lambda>f. if f = ''Lib.swift'' then Inr ''helper'' else Inl ''No such file or directory''),
       parseTranslationUnit = (\<lambda>b C. (Some \<lparr>Decls = [(10, ValueDecl ''helper'' None)]\<rparr>, C))\<rparr>
      \<lparr>Decls = [(1, ImportDecl ''Lib'' 3),
                (2, ValueDecl ''x'' (Some (OtherExpr 7 [Some (UnresolvedDeclRefExpr ''callee'' 5),
                                                         Some (UnresolvedDeclRefExpr ''helper'' 6)]))),
                (3, ValueDecl ''callee'' (Some (OtherExpr 42 [])))]\<rparr>
      \<lparr>Buffers = [], Messages = [], HadError = False\<rparr>)) ! 1
     = (2, ValueDecl ''x'' (Some (OtherExpr 7 [Some (DeclRefExpr 3 5), Some (DeclRefExpr 10 6)])))"
proof -
  let ?W = "\<lparr>getFile = (\<lambda>f. if f = ''Lib.swift'' then Inr ''helper'' else Inl ''No such file or directory''),
       parseTranslationUnit = (\<lambda>b C. (Some \<lparr>Decls = [(10, ValueDecl ''helper'' None)]\<rparr>, C))\<rparr>"
  let ?E = "OtherExpr 7 [Some (UnresolvedDeclRefExpr ''callee'' 5),
                         Some (UnresolvedDeclRefExpr ''helper'' 6)]"
  let ?tud = "\<lparr>Decls = [(1, ImportDecl ''Lib'' 3), (2, ValueDecl ''x'' (Some ?E)),
                (3, ValueDecl ''callee'' (Some (OtherExpr 42 [])))]\<rparr>"
  have h1: "1 < length (Decls ?tud)" by simp
  have h2: "Decls ?tud ! 1 = (2, ValueDecl ''x'' (Some ?E))" by simp
  have h3: "2 < length (Decls ?tud)" by simp
  have h4: "Decls ?tud ! 2 = (3, ValueDecl ''callee'' (Some (OtherExpr 42 [])))" by simp
  have h5: "''callee'' \<noteq> []" by simp
  have h6: "\<forall>k. 2 < k \<and> k < length (Decls ?tud) \<longrightarrow> \<not> declaresValue ''callee'' (snd (Decls ?tud ! k))"
    by auto
  from forward_reference[OF h1 h2 h3 h4 h5 h6, of ?W "\<lparr>Buffers = [], Messages = [], HadError = False\<rparr>"]
  show ?thesis
    by (simp add: prepass_step_def addNamedTopLevelDecl_def NameBinder_new_def bindValueName_def
          addImport_def getReferencedModule_def ReferencedModule_new_def lookupValue_def
          Mapping.lookup_update')
qed

text \<open>
  C3. When a name is neither in the binder's table nor found by any import, resolving it
  answers null, which is what \<open>BindNames\<close> hands back for that node; one message of kind
  error, \<open>use of unresolved identifier '<name>'\<close>, is added at the reference's location
  and the error flag is set. The table is as before and every later resolution answers as
  it would have; the second pass stores the null as the initializer and goes on with the
  declarations that follow.
\<close>

theorem unresolved_identifier:
  assumes "Mapping.lookup (TopLevelValues B) Name = None"
    and "\<forall>(ID, RM) \<in> set (Imports B). fst (lookupValue RM ID Name) = None"
  shows "fst (bindValueName B Name Loc) = None
       \<and> BindNames (UnresolvedDeclRefExpr Name Loc) Walk_PostOrder B = bindValueName B Name Loc
       \<and> Messages (Context (snd (bindValueName B Name Loc)))
           = Messages (Context B)
             @ [(Loc, ''use of unresolved identifier '' @ [CHR 0x27] @ Name @ [CHR 0x27], ''error'')]
       \<and> HadError (Context (snd (bindValueName B Name Loc)))
       \<and> TopLevelValues (snd (bindValueName B Name Loc)) = TopLevelValues B
       \<and> (\<forall>n l. fst (bindValueName (snd (bindValueName B Name Loc)) n l)
                  = fst (bindValueName B n l))
       \<and> rewrite ((I, ValueDecl m (Some (UnresolvedDeclRefExpr Name Loc))) # Ds) B
           = (case rewrite Ds (snd (bindValueName B Name Loc)) of
                (Ds', B2) \<Rightarrow> ((I, ValueDecl m None) # Ds', B2))"
proof -
  note u = bindValueName_unresolved[OF assms, of Loc]
  have 1: "fst (bindValueName B Name Loc) = None" using u by simp
  have 2: "BindNames (UnresolvedDeclRefExpr Name Loc) Walk_PostOrder B = bindValueName B Name Loc"
    by (simp add: BindNames_def)
  have 3: "Messages (Context (snd (bindValueName B Name Loc)))
           = Messages (Context B)
             @ [(Loc, ''use of unresolved identifier '' @ [CHR 0x27] @ Name @ [CHR 0x27], ''error'')]"
    using u by (simp add: error_def)
  have 4: "HadError (Context (snd (bindValueName B Name Loc)))"
    using u by (simp add: error_def)
  have 5: "TopLevelValues (snd (bindValueName B Name Loc)) = TopLevelValues B"
    by (rule bindValueName_TopLevelValues)
  have 6: "\<forall>n l. fst (bindValueName (snd (bindValueName B Name Loc)) n l)
                  = fst (bindValueName B n l)"
    using bindValueName_cong[OF bindValueName_equiv[of B Name Loc]] by simp
  have "rewrite_step (ValueDecl m (Some (UnresolvedDeclRefExpr Name Loc))) B
          = (ValueDecl m None, snd (bindValueName B Name Loc))"
    using 1 by (cases "bindValueName B Name Loc")
      (simp add: rewrite_step_def BindNames_pre, simp add: BindNames_def)
  then have 7: "rewrite ((I, ValueDecl m (Some (UnresolvedDeclRefExpr Name Loc))) # Ds) B
           = (case rewrite Ds (snd (bindValueName B Name Loc)) of
                (Ds', B2) \<Rightarrow> ((I, ValueDecl m None) # Ds', B2))"
    by simp
  from 1 2 3 4 5 6 7 show ?thesis by blast
qed

theorem unresolved_identifier_witness:
  "rewrite [(1, ValueDecl ''z'' (Some (UnresolvedDeclRefExpr ''ghost'' 7))),
            (2, ValueDecl ''w'' (Some (UnresolvedDeclRefExpr ''z'' 8)))]
      \<lparr>LoadedModules = [], TopLevelValues = Mapping.update ''w'' 2 (Mapping.update ''z'' 1 Mapping.empty),
       Imports = [(3, ReferencedModule_new \<lparr>Decls = [(10, ValueDecl ''helper'' None)]\<rparr>)],
       Context = \<lparr>Buffers = [], Messages = [], HadError = False\<rparr>\<rparr>
   = ([(1, ValueDecl ''z'' None), (2, ValueDecl ''w'' (Some (DeclRefExpr 1 8)))],
      \<lparr>LoadedModules = [], TopLevelValues = Mapping.update ''w'' 2 (Mapping.update ''z'' 1 Mapping.empty),
       Imports = [(3, \<lparr>TUD = \<lparr>Decls = [(10, ValueDecl ''helper'' None)]\<rparr>,
                        TopLevelValues_RM = Mapping.update ''helper'' 10 Mapping.empty\<rparr>)],
       Context = \<lparr>Buffers = [],
         Messages = [(7, ''use of unresolved identifier '' @ [CHR 0x27] @ ''ghost'' @ [CHR 0x27], ''error'')],
         HadError = True\<rparr>\<rparr>)"
proof -
  let ?B = "\<lparr>LoadedModules = [], TopLevelValues = Mapping.update ''w'' 2 (Mapping.update ''z'' 1 Mapping.empty),
       Imports = [(3, ReferencedModule_new \<lparr>Decls = [(10, ValueDecl ''helper'' None)]\<rparr>)],
       Context = \<lparr>Buffers = [], Messages = [], HadError = False\<rparr>\<rparr>"
  have h1: "Mapping.lookup (TopLevelValues ?B) ''ghost'' = None" by simp
  have h2: "\<forall>(ID, RM) \<in> set (Imports ?B). fst (lookupValue RM ID ''ghost'') = None"
    by (simp add: lookupValue_def ReferencedModule_new_def)
  from unresolved_identifier[OF h1 h2, of 7 1 "''z''" "[(2, ValueDecl ''w'' (Some (UnresolvedDeclRefExpr ''z'' 8)))]"]
  show ?thesis
    by (simp add: rewrite_step_def BindNames_def bindValueName_def error_def
          lookupValue_def ReferencedModule_new_def)
qed

text \<open>
  C4. When several top-level value declarations of one scope share a non-empty name, the
  lookup of that name finds the one declared last: both in the index of an imported
  module and in the table the prepass builds for the unit itself.
\<close>

theorem last_declaration_wins:
  assumes "n \<noteq> []"
    and "Decls tud = ds1 @ (p, ValueDecl n init) # ds2"
    and "\<forall>(q, D) \<in> set ds2. \<not> declaresValue n D"
  shows "fst (lookupValue (ReferencedModule_new tud) ID n) = Some p
       \<and> Mapping.lookup (TopLevelValues (prepass W (Decls tud) (NameBinder_new Ctx))) n = Some p"
  using assms
  by (simp add: lookupValue_def ReferencedModule_new_def prepass_TopLevelValues
        NameBinder_new_def build_last')

theorem last_declaration_wins_witness:
  "fst (lookupValue (ReferencedModule_new
          \<lparr>Decls = [(1, ValueDecl ''a'' None), (2, ValueDecl ''a'' None), (3, ValueDecl ''b'' None)]\<rparr>)
        9 ''a'') = Some 2
   \<and> Mapping.lookup (TopLevelValues (prepass
        \<lparr>getFile = (\<lambda>f. Inl ''No such file or directory''),
         parseTranslationUnit = (\<lambda>b C. (None, C))\<rparr>
        [(1, ValueDecl ''a'' None), (2, ValueDecl ''a'' None), (3, ValueDecl ''b'' None)]
        (NameBinder_new \<lparr>Buffers = [], Messages = [], HadError = False\<rparr>))) ''a'' = Some 2"
  using last_declaration_wins[of "''a''"
      "\<lparr>Decls = [(1, ValueDecl ''a'' None), (2, ValueDecl ''a'' None), (3, ValueDecl ''b'' None)]\<rparr>"
      "[(1, ValueDecl ''a'' None)]" 2 None "[(3, ValueDecl ''b'' None)]" 9
      "\<lparr>getFile = (\<lambda>f. Inl ''No such file or directory''),
         parseTranslationUnit = (\<lambda>b C. (None, C))\<rparr>"
      "\<lparr>Buffers = [], Messages = [], HadError = False\<rparr>"]
  by simp

text \<open>
  C5. When the file of an imported module cannot be read, the load answers null and adds
  one message of kind error at the location of the import statement, with the reason the
  read gave; the import list, the loaded modules, the table and the buffers are as before,
  and the prepass goes on with the declarations that follow.
\<close>

theorem import_read_failure:
  assumes "getFile W (Name @ ''.swift'') = Inl Err"
  shows "getReferencedModule W B Loc Name
           = (None, error B Loc (''opening import file '' @ [CHR 0x27] @ Name @ ''.swift''
                                 @ [CHR 0x27] @ '': '' @ Err))
       \<and> Messages (Context (addImport W B ID Name Loc))
           = Messages (Context B)
             @ [(Loc, ''opening import file '' @ [CHR 0x27] @ Name @ ''.swift''
                       @ [CHR 0x27] @ '': '' @ Err, ''error'')]
       \<and> HadError (Context (addImport W B ID Name Loc))
       \<and> Buffers (Context (addImport W B ID Name Loc)) = Buffers (Context B)
       \<and> Imports (addImport W B ID Name Loc) = Imports B
       \<and> LoadedModules (addImport W B ID Name Loc) = LoadedModules B
       \<and> TopLevelValues (addImport W B ID Name Loc) = TopLevelValues B
       \<and> prepass W ((ID, ImportDecl Name Loc) # Ds) B = prepass W Ds (addImport W B ID Name Loc)"
  using assms
  by (simp add: getReferencedModule_def addImport_def prepass_step_def error_def)

theorem import_read_failure_witness:
  "Imports (prepass
      \<lparr>getFile = (\<lambda>f. if f = ''Lib.swift'' then Inr ''helper'' else Inl ''No such file or directory''),
       parseTranslationUnit = (\<lambda>b C. (Some \<lparr>Decls = [(10, ValueDecl ''helper'' None)]\<rparr>, C))\<rparr>
      [(1, ImportDecl ''Nope'' 3), (2, ImportDecl ''Lib'' 4)]
      (NameBinder_new \<lparr>Buffers = [], Messages = [], HadError = False\<rparr>))
     = [(2, ReferencedModule_new \<lparr>Decls = [(10, ValueDecl ''helper'' None)]\<rparr>)]
   \<and> Messages (Context (prepass
      \<lparr>getFile = (\<lambda>f. if f = ''Lib.swift'' then Inr ''helper'' else Inl ''No such file or directory''),
       parseTranslationUnit = (\<lambda>b C. (Some \<lparr>Decls = [(10, ValueDecl ''helper'' None)]\<rparr>, C))\<rparr>
      [(1, ImportDecl ''Nope'' 3), (2, ImportDecl ''Lib'' 4)]
      (NameBinder_new \<lparr>Buffers = [], Messages = [], HadError = False\<rparr>)))
     = [(3, ''opening import file '' @ [CHR 0x27] @ ''Nope.swift'' @ [CHR 0x27]
            @ '': No such file or directory'', ''error'')]"
proof -
  let ?W = "\<lparr>getFile = (\<lambda>f. if f = ''Lib.swift'' then Inr ''helper'' else Inl ''No such file or directory''),
       parseTranslationUnit = (\<lambda>b C. (Some \<lparr>Decls = [(10, ValueDecl ''helper'' None)]\<rparr>, C))\<rparr>"
  have h: "getFile ?W (''Nope'' @ ''.swift'') = Inl ''No such file or directory''" by simp
  from import_read_failure[OF h, of "NameBinder_new \<lparr>Buffers = [], Messages = [], HadError = False\<rparr>" 3 1
      "[(2, ImportDecl ''Lib'' 4)]"]
  show ?thesis
    by (simp add: prepass_step_def addImport_def getReferencedModule_def NameBinder_new_def error_def)
qed

text \<open>
  C6. The first lookup of a fresh module index builds the map from the unit's
  declarations: its keys are the non-empty names of the unit's value declarations. Every
  later lookup, of any name, answers from that same map and leaves the module as it is; the
  same name gets the same answer, and a name that no value declaration bears gets none.
  The map stays empty exactly when the unit has no named value declaration; the guard of
  the build then holds again at the next call, and the build gives the same empty map.
\<close>

theorem lookupValue_cached:
  "TopLevelValues_RM (snd (lookupValue (ReferencedModule_new tud) ID Name))
     = lookupValue_build (Decls tud) Mapping.empty
   \<and> TUD (snd (lookupValue (ReferencedModule_new tud) ID Name)) = tud
   \<and> Mapping.keys (TopLevelValues_RM (snd (lookupValue (ReferencedModule_new tud) ID Name)))
     = {n. n \<noteq> [] \<and> (\<exists>q i. (q, ValueDecl n i) \<in> set (Decls tud))}
   \<and> lookupValue (snd (lookupValue (ReferencedModule_new tud) ID Name)) ID' Name'
     = (Mapping.lookup (lookupValue_build (Decls tud) Mapping.empty) Name',
        snd (lookupValue (ReferencedModule_new tud) ID Name))
   \<and> lookupValue (snd (lookupValue (ReferencedModule_new tud) ID Name)) ID' Name
     = lookupValue (ReferencedModule_new tud) ID Name
   \<and> ((\<forall>(q, D) \<in> set (Decls tud). \<not> declaresValue Name D)
        \<longrightarrow> fst (lookupValue (ReferencedModule_new tud) ID Name) = None)
   \<and> (Mapping.is_empty (TopLevelValues_RM (snd (lookupValue (ReferencedModule_new tud) ID Name)))
        \<longleftrightarrow> (\<forall>(q, D) \<in> set (Decls tud). \<forall>n. n \<noteq> [] \<longrightarrow> \<not> declaresValue n D))"
proof -
  have l: "lookupValue (ReferencedModule_new tud) ID Name
     = (Mapping.lookup (lookupValue_build (Decls tud) Mapping.empty) Name,
        \<lparr>TUD = tud, TopLevelValues_RM = lookupValue_build (Decls tud) Mapping.empty\<rparr>)"
    by (simp add: lookupValue_def ReferencedModule_new_def)
  have 1: "TopLevelValues_RM (snd (lookupValue (ReferencedModule_new tud) ID Name))
     = lookupValue_build (Decls tud) Mapping.empty"
    and 2: "TUD (snd (lookupValue (ReferencedModule_new tud) ID Name)) = tud"
    by (simp_all add: l)
  have 3: "Mapping.keys (TopLevelValues_RM (snd (lookupValue (ReferencedModule_new tud) ID Name)))
     = {n. n \<noteq> [] \<and> (\<exists>q i. (q, ValueDecl n i) \<in> set (Decls tud))}"
    by (simp add: l build_keys)
  have 4: "lookupValue (snd (lookupValue (ReferencedModule_new tud) ID Name)) ID' Name'
     = (Mapping.lookup (lookupValue_build (Decls tud) Mapping.empty) Name',
        snd (lookupValue (ReferencedModule_new tud) ID Name))" for Name'
    by (simp add: l) (simp add: lookupValue_def build_is_empty)
  have 5: "lookupValue (snd (lookupValue (ReferencedModule_new tud) ID Name)) ID' Name
     = lookupValue (ReferencedModule_new tud) ID Name"
    using 4[of Name] by (simp add: l)
  have 6: "(\<forall>(q, D) \<in> set (Decls tud). \<not> declaresValue Name D)
        \<longrightarrow> fst (lookupValue (ReferencedModule_new tud) ID Name) = None"
    by (simp add: l build_absent')
  have 7: "Mapping.is_empty (TopLevelValues_RM (snd (lookupValue (ReferencedModule_new tud) ID Name)))
        \<longleftrightarrow> (\<forall>(q, D) \<in> set (Decls tud). \<forall>n. n \<noteq> [] \<longrightarrow> \<not> declaresValue n D)"
    by (simp add: l build_empty_iff)
  from 1 2 3 4 5 6 7 show ?thesis by blast
qed

theorem lookupValue_cached_witness:
  "lookupValue (snd (lookupValue (ReferencedModule_new
        \<lparr>Decls = [(1, ValueDecl ''a'' None), (2, ValueDecl [] None), (3, ImportDecl ''M'' 0)]\<rparr>) 9 ''a'')) 9 ''a''
     = lookupValue (ReferencedModule_new
        \<lparr>Decls = [(1, ValueDecl ''a'' None), (2, ValueDecl [] None), (3, ImportDecl ''M'' 0)]\<rparr>) 9 ''a''
   \<and> fst (lookupValue (ReferencedModule_new
        \<lparr>Decls = [(1, ValueDecl ''a'' None), (2, ValueDecl [] None), (3, ImportDecl ''M'' 0)]\<rparr>) 9 ''a'') = Some 1
   \<and> fst (lookupValue (ReferencedModule_new
        \<lparr>Decls = [(1, ValueDecl ''a'' None), (2, ValueDecl [] None), (3, ImportDecl ''M'' 0)]\<rparr>) 9 ''zz'') = None"
  using lookupValue_cached[of "\<lparr>Decls = [(1, ValueDecl ''a'' None), (2, ValueDecl [] None), (3, ImportDecl ''M'' 0)]\<rparr>" 9 "''a''" 9 "''a''"]
    lookupValue_cached[of "\<lparr>Decls = [(1, ValueDecl ''a'' None), (2, ValueDecl [] None), (3, ImportDecl ''M'' 0)]\<rparr>" 9 "''zz''" 9 "''zz''"]
  by (simp add: lookupValue_def ReferencedModule_new_def)

text \<open>
  C7. Walking an initializer with \<open>BindNames\<close> gives the tree in which exactly the
  Unresolved References are replaced by what resolving their name at their location
  answers, and every other node is kept. \<open>BindNames\<close> leaves a node alone in pre-order; a
  parent is handed to it in post-order, with its children already rewritten. The second
  pass stores the rewritten tree back as the initializer of the declaration.
\<close>

theorem reference_rewriter:
  "fst (WalkExpr BindNames E B) = rewrite_spec (\<lambda>n l. fst (bindValueName B n l)) E
   \<and> BindNames E Walk_PreOrder B = (Some E, B)
   \<and> WalkExpr BindNames (OtherExpr k Cs) B
       = (case WalkChildren BindNames Cs B of
            (Cs', B') \<Rightarrow> BindNames (OtherExpr k Cs') Walk_PostOrder B')
   \<and> BindNames (OtherExpr k Cs) Walk_PostOrder B = (Some (OtherExpr k Cs), B)
   \<and> BindNames (DeclRefExpr D Loc) Walk_PostOrder B = (Some (DeclRefExpr D Loc), B)
   \<and> BindNames (UnresolvedDeclRefExpr Name Loc) Walk_PostOrder B = bindValueName B Name Loc
   \<and> (i < length (Decls tud) \<and> Decls tud ! i = (q, ValueDecl Name' (Some E))
      \<longrightarrow> Decls (fst (performNameBinding W tud Ctx)) ! i
           = (q, ValueDecl Name'
                  (rewrite_spec
                     (\<lambda>n l. fst (bindValueName (prepass W (Decls tud) (NameBinder_new Ctx)) n l))
                     E)))"
  using performNameBinding_nth[of i tud q Name' E W Ctx] walk_spec(1)[OF binder_equiv_refl[of B], of E]
  by (simp add: BindNames_pre) (simp add: BindNames_def)

theorem reference_rewriter_witness:
  "fst (WalkExpr BindNames
     (OtherExpr 3 [Some (UnresolvedDeclRefExpr ''a'' 5), None,
                   Some (OtherExpr 4 [Some (UnresolvedDeclRefExpr ''ghost'' 6)]),
                   Some (DeclRefExpr 9 7)])
     \<lparr>LoadedModules = [], TopLevelValues = Mapping.update ''a'' 1 Mapping.empty,
      Imports = [], Context = \<lparr>Buffers = [], Messages = [], HadError = False\<rparr>\<rparr>)
   = Some (OtherExpr 3 [Some (DeclRefExpr 1 5), None, Some (OtherExpr 4 [None]),
                        Some (DeclRefExpr 9 7)])
   \<and> Decls (fst (performNameBinding
      \<lparr>getFile = (\<lambda>f. Inl ''No such file or directory''),
       parseTranslationUnit = (\<lambda>b C. (None, C))\<rparr>
      \<lparr>Decls = [(1, ValueDecl ''b'' (Some (OtherExpr 3 [Some (UnresolvedDeclRefExpr ''a'' 5)]))),
                (2, ValueDecl ''a'' None)]\<rparr>
      \<lparr>Buffers = [], Messages = [], HadError = False\<rparr>)) ! 0
     = (1, ValueDecl ''b'' (Some (OtherExpr 3 [Some (DeclRefExpr 2 5)])))"
proof -
  let ?E = "OtherExpr 3 [Some (UnresolvedDeclRefExpr ''a'' 5), None,
                   Some (OtherExpr 4 [Some (UnresolvedDeclRefExpr ''ghost'' 6)]),
                   Some (DeclRefExpr 9 7)]"
  let ?B = "\<lparr>LoadedModules = [], TopLevelValues = Mapping.update ''a'' 1 Mapping.empty,
      Imports = [], Context = \<lparr>Buffers = [], Messages = [], HadError = False\<rparr>\<rparr>"
  let ?tud = "\<lparr>Decls = [(1, ValueDecl ''b'' (Some (OtherExpr 3 [Some (UnresolvedDeclRefExpr ''a'' 5)]))),
                (2, ValueDecl ''a'' None)]\<rparr>"
  let ?W = "\<lparr>getFile = (\<lambda>f. Inl ''No such file or directory''),
       parseTranslationUnit = (\<lambda>b C. (None, C))\<rparr>"
  let ?Ctx = "\<lparr>Buffers = [], Messages = [], HadError = False\<rparr>"
  have "fst (WalkExpr BindNames ?E ?B) = rewrite_spec (\<lambda>n l. fst (bindValueName ?B n l)) ?E"
    using reference_rewriter[where E = ?E and B = ?B] by (rule conjunct1)
  also have "\<dots> = Some (OtherExpr 3 [Some (DeclRefExpr 1 5), None, Some (OtherExpr 4 [None]),
                        Some (DeclRefExpr 9 7)])"
    by (simp add: bindValueName_def Mapping.lookup_update')
  finally have a: "fst (WalkExpr BindNames ?E ?B)
     = Some (OtherExpr 3 [Some (DeclRefExpr 1 5), None, Some (OtherExpr 4 [None]),
                          Some (DeclRefExpr 9 7)])" .
  have b: "Decls (fst (performNameBinding ?W ?tud ?Ctx)) ! 0
     = (1, ValueDecl ''b'' (Some (OtherExpr 3 [Some (DeclRefExpr 2 5)])))"
    using reference_rewriter[where i = 0 and q = 1 and Name' = "''b''"
      and E = "OtherExpr 3 [Some (UnresolvedDeclRefExpr ''a'' 5)]"
      and tud = ?tud and W = ?W and Ctx = ?Ctx]
    by (simp add: prepass_step_def addNamedTopLevelDecl_def NameBinder_new_def bindValueName_def
        Mapping.lookup_update' BindNames_def)
  from a b show ?thesis by (rule conjI)
qed

text \<open>
  C8. The prepass registers a value declaration only when its name is not empty. After
  any sequence of registrations and resolutions on a new binder, and at the end of the
  whole pass, no key of the binder's table and no key of the map of any imported module
  is the empty identifier.
\<close>

theorem symbol_table_keys_nonempty:
  "prepass_step W I (ValueDecl Name Init) B
     = (if Name \<noteq> [] then addNamedTopLevelDecl B I Name else B)
   \<and> (\<forall>k \<in> Mapping.keys (TopLevelValues (fold (apply_op W) ops (NameBinder_new C))). k \<noteq> [])
   \<and> (\<forall>(ID, RM) \<in> set (Imports (fold (apply_op W) ops (NameBinder_new C))).
        \<forall>k \<in> Mapping.keys (TopLevelValues_RM RM). k \<noteq> [])
   \<and> (\<forall>k \<in> Mapping.keys (TopLevelValues (snd (performNameBinding_run W tud Ctx))). k \<noteq> [])
   \<and> (\<forall>(ID, RM) \<in> set (Imports (snd (performNameBinding_run W tud Ctx))).
        \<forall>k \<in> Mapping.keys (TopLevelValues_RM RM). k \<noteq> [])"
proof -
  have 1: "prepass_step W I (ValueDecl Name Init) B
     = (if Name \<noteq> [] then addNamedTopLevelDecl B I Name else B)"
    by (simp add: prepass_step_def)
  have 2: "keys_ok (fold (apply_op W) ops (NameBinder_new C))"
    by (rule keys_ok_ops) (rule keys_ok_new)
  have 3: "keys_ok (snd (performNameBinding_run W tud Ctx))"
    by (rule keys_ok_run)
  from 1 2 3 show ?thesis
    unfolding keys_ok_def by (simp only: simp_thms) fastforce
qed

theorem symbol_table_keys_nonempty_witness:
  "Mapping.keys (TopLevelValues (fold (apply_op
      \<lparr>getFile = (\<lambda>f. if f = ''Lib.swift'' then Inr ''helper'' else Inl ''No such file or directory''),
       parseTranslationUnit = (\<lambda>b C. (Some \<lparr>Decls = [(10, ValueDecl ''helper'' None), (11, ValueDecl [] None)]\<rparr>, C))\<rparr>)
      [RegisterOp 1 (ValueDecl [] None), RegisterOp 2 (ValueDecl ''a'' None),
       RegisterOp 3 (ImportDecl ''Lib'' 0), ResolveOp ''zz'' 4]
      (NameBinder_new \<lparr>Buffers = [], Messages = [], HadError = False\<rparr>))) = {''a''}
   \<and> map (\<lambda>(ID, RM). Mapping.keys (TopLevelValues_RM RM)) (Imports (fold (apply_op
      \<lparr>getFile = (\<lambda>f. if f = ''Lib.swift'' then Inr ''helper'' else Inl ''No such file or directory''),
       parseTranslationUnit = (\<lambda>b C. (Some \<lparr>Decls = [(10, ValueDecl ''helper'' None), (11, ValueDecl [] None)]\<rparr>, C))\<rparr>)
      [RegisterOp 1 (ValueDecl [] None), RegisterOp 2 (ValueDecl ''a'' None),
       RegisterOp 3 (ImportDecl ''Lib'' 0), ResolveOp ''zz'' 4]
      (NameBinder_new \<lparr>Buffers = [], Messages = [], HadError = False\<rparr>))) = [{''helper''}]"
  using symbol_table_keys_nonempty[where W = "\<lparr>getFile = (\<lambda>f. if f = ''Lib.swift'' then Inr ''helper'' else Inl ''No such file or directory''),
       parseTranslationUnit = (\<lambda>b C. (Some \<lparr>Decls = [(10, ValueDecl ''helper'' None), (11, ValueDecl [] None)]\<rparr>, C))\<rparr>"
     and ops = "[RegisterOp 1 (ValueDecl [] None), RegisterOp 2 (ValueDecl ''a'' None),
       RegisterOp 3 (ImportDecl ''Lib'' 0), ResolveOp ''zz'' 4]"
     and C = "\<lparr>Buffers = [], Messages = [], HadError = False\<rparr>"]
  by (simp add: prepass_step_def addNamedTopLevelDecl_def NameBinder_new_def bindValueName_def
        addImport_def getReferencedModule_def ReferencedModule_new_def lookupValue_def error_def)

text \<open>
  C9. Two import statements that name the same module are loaded one after the other,
  each with its own buffer and its own parse, and each adds its own entry to the import
  list and to the loaded modules, whatever the binder already holds. The file read is
  the module identifier followed by \<open>.swift\<close>, and no other.
\<close>

theorem import_no_dedup:
  assumes "getFile W (M @ ''.swift'') = Inr buf"
    and "parseTranslationUnit W (length (Buffers (Context B)))
           ((Context B)\<lparr>Buffers := Buffers (Context B) @ [(buf, l1)]\<rparr>) = (Some tud1, C1)"
    and "parseTranslationUnit W (length (Buffers C1))
           (C1\<lparr>Buffers := Buffers C1 @ [(buf, l2)]\<rparr>) = (Some tud2, C2)"
  shows "prepass W [(p1, ImportDecl M l1), (p2, ImportDecl M l2)] B
           = B\<lparr>LoadedModules := LoadedModules B @ [tud1, tud2],
               Imports := Imports B @ [(p1, ReferencedModule_new tud1),
                                       (p2, ReferencedModule_new tud2)],
               Context := C2\<rparr>
       \<and> (getFile W' (M @ ''.swift'') = getFile W (M @ ''.swift'')
            \<and> parseTranslationUnit W' = parseTranslationUnit W
          \<longrightarrow> getReferencedModule W' B l1 M = getReferencedModule W B l1 M)"
  using assms
  by (simp add: prepass_step_def addImport_def getReferencedModule_def)

theorem import_no_dedup_witness:
  "prepass
      \<lparr>getFile = (\<lambda>f. if f = ''Lib.swift'' then Inr ''helper'' else Inl ''No such file or directory''),
       parseTranslationUnit = (\<lambda>b C. (Some \<lparr>Decls = [(100 + b, ValueDecl ''helper'' None)]\<rparr>, C))\<rparr>
      [(1, ImportDecl ''Lib'' 3), (2, ImportDecl ''Lib'' 4)]
      (NameBinder_new \<lparr>Buffers = [], Messages = [], HadError = False\<rparr>)
   = \<lparr>LoadedModules = [\<lparr>Decls = [(100, ValueDecl ''helper'' None)]\<rparr>,
                        \<lparr>Decls = [(101, ValueDecl ''helper'' None)]\<rparr>],
      TopLevelValues = Mapping.empty,
      Imports = [(1, ReferencedModule_new \<lparr>Decls = [(100, ValueDecl ''helper'' None)]\<rparr>),
                 (2, ReferencedModule_new \<lparr>Decls = [(101, ValueDecl ''helper'' None)]\<rparr>)],
      Context = \<lparr>Buffers = [(''helper'', 3), (''helper'', 4)], Messages = [], HadError = False\<rparr>\<rparr>"
proof -
  let ?W = "\<lparr>getFile = (\<lambda>f. if f = ''Lib.swift'' then Inr ''helper'' else Inl ''No such file or directory''),
       parseTranslationUnit = (\<lambda>b C. (Some \<lparr>Decls = [(100 + b, ValueDecl ''helper'' None)]\<rparr>, C))\<rparr>"
  let ?B = "NameBinder_new \<lparr>Buffers = [], Messages = [], HadError = False\<rparr>"
  let ?C1 = "\<lparr>Buffers = [(''helper'', 3)], Messages = [], HadError = False\<rparr>"
  let ?C2 = "\<lparr>Buffers = [(''helper'', 3), (''helper'', 4)], Messages = [], HadError = False\<rparr>"
  have h1: "getFile ?W (''Lib'' @ ''.swift'') = Inr ''helper''" by simp
  have h2: "parseTranslationUnit ?W (length (Buffers (Context ?B)))
           ((Context ?B)\<lparr>Buffers := Buffers (Context ?B) @ [(''helper'', 3)]\<rparr>)
        = (Some \<lparr>Decls = [(100, ValueDecl ''helper'' None)]\<rparr>, ?C1)"
    by (simp add: NameBinder_new_def)
  have h3: "parseTranslationUnit ?W (length (Buffers ?C1))
           (?C1\<lparr>Buffers := Buffers ?C1 @ [(''helper'', 4)]\<rparr>)
        = (Some \<lparr>Decls = [(101, ValueDecl ''helper'' None)]\<rparr>, ?C2)"
    by simp
  from import_no_dedup[OF h1 h2 h3, of 1 2] show ?thesis
    by (simp add: NameBinder_new_def)
qed

text \<open>
  C10. A value declaration with an empty name is left out of the binder's table and of
  the map of a module index, and its initializer is rewritten in the second pass just as
  that of a named declaration is.
\<close>

theorem anonymous_value_decl:
  "prepass_step W I (ValueDecl [] Init) B = B
   \<and> lookupValue_build ((I, ValueDecl [] Init) # Ds) M = lookupValue_build Ds M
   \<and> rewrite_step (ValueDecl [] (Some E)) B
       = (ValueDecl [] (fst (WalkExpr BindNames E B)), snd (WalkExpr BindNames E B))
   \<and> rewrite_step (ValueDecl Name (Some E)) B
       = (ValueDecl Name (fst (WalkExpr BindNames E B)), snd (WalkExpr BindNames E B))
   \<and> (i < length (Decls tud) \<and> Decls tud ! i = (q, ValueDecl [] (Some E))
      \<longrightarrow> Decls (fst (performNameBinding W tud Ctx)) ! i
           = (q, ValueDecl []
                  (rewrite_spec
                     (\<lambda>n l. fst (bindValueName (prepass W (Decls tud) (NameBinder_new Ctx)) n l))
                     E)))"
  using performNameBinding_nth[of i tud q "[]" E W Ctx]
  by (simp add: prepass_step_def rewrite_step_def split: prod.splits)

theorem anonymous_value_decl_witness:
  "Decls (fst (performNameBinding
      \<lparr>getFile = (\<lambda>f. Inl ''No such file or directory''),
       parseTranslationUnit = (\<lambda>b C. (None, C))\<rparr>
      \<lparr>Decls = [(1, ValueDecl [] (Some (UnresolvedDeclRefExpr ''a'' 5))),
                (2, ValueDecl ''a'' None)]\<rparr>
      \<lparr>Buffers = [], Messages = [], HadError = False\<rparr>)) ! 0
     = (1, ValueDecl [] (Some (DeclRefExpr 2 5)))
   \<and> TopLevelValues (prepass
      \<lparr>getFile = (\<lambda>f. Inl ''No such file or directory''),
       parseTranslationUnit = (\<lambda>b C. (None, C))\<rparr>
      [(1, ValueDecl [] (Some (UnresolvedDeclRefExpr ''a'' 5))), (2, ValueDecl ''a'' None)]
      (NameBinder_new \<lparr>Buffers = [], Messages = [], HadError = False\<rparr>))
     = Mapping.update ''a'' 2 Mapping.empty"
  using anonymous_value_decl[where i = 0 and q = 1 and E = "UnresolvedDeclRefExpr ''a'' 5"
      and tud = "\<lparr>Decls = [(1, ValueDecl [] (Some (UnresolvedDeclRefExpr ''a'' 5))),
                (2, ValueDecl ''a'' None)]\<rparr>"
      and W = "\<lparr>getFile = (\<lambda>f. Inl ''No such file or directory''),
       parseTranslationUnit = (\<lambda>b C. (None, C))\<rparr>"
      and Ctx = "\<lparr>Buffers = [], Messages = [], HadError = False\<rparr>"]
  by (simp add: prepass_step_def addNamedTopLevelDecl_def NameBinder_new_def bindValueName_def)

end
